theory Spec2Isabelle
  imports Main "HOL-Library.Word" "HOL-Library.Monad_Syntax"
begin

unbundle bit_operations_syntax

section \<open>Machine words, raw memory and the helpers of math.hpp\<close>

text \<open>
  The library stores everything in 64-bit words (\<open>using Word = std::uint64_t\<close>).
  Stored words are \<open>64 word\<close>; positions, indices and sizes (\<open>std::size_t\<close>) are
  natural numbers, and every theorem below carries the hypothesis that the vector's
  storage is addressable, under which no index computation of the source wraps around.
  Where a subtraction of the source can fall below zero on some input (the rank
  arithmetic of the select queries), its wrap-around is written out.

  A \<open>StaticVector\<close> is a raw heap array: \<open>operator[]\<close> does not check its index.
  Reads and writes are therefore modelled with an explicit outcome: \<open>None\<close> stands for
  an access outside the allocated buffer (undefined behaviour in the source), and every
  function that touches memory returns an \<open>option\<close>.
\<close>

type_synonym Word = "64 word"

definition kWordWidth :: nat where
  "kWordWidth = 64"

definition popcount :: "Word \<Rightarrow> nat" where
  "popcount w = length (filter (bit w) [0..<64])"

definition rd :: "'a list \<Rightarrow> nat \<Rightarrow> 'a option" where
  "rd xs i = (if i < length xs then Some (xs ! i) else None)"

definition wr :: "'a list \<Rightarrow> nat \<Rightarrow> 'a \<Rightarrow> 'a list option" where
  "wr xs i v = (if i < length xs then Some (xs[i := v]) else None)"

definition div_ceil :: "nat \<Rightarrow> nat \<Rightarrow> nat" where
  "div_ceil x y = x div y + (if x mod y \<noteq> 0 then 1 else 0)"

definition pow2 :: "nat \<Rightarrow> nat" where
  "pow2 n = 2 ^ n"

text \<open>\<open>setbits<Word>(num_set_bits, start)\<close>: \<open>kOnes\<close> is the all-ones word.\<close>

definition setbits :: "nat \<Rightarrow> nat \<Rightarrow> Word" where
  "setbits num_set_bits start =
     (if num_set_bits = 0 then 0
      else push_bit start (drop_bit (kWordWidth - num_set_bits) (- 1)))"

section \<open>StaticVector: a heap array with indeterminate initial contents\<close>

text \<open>
  The constructor calls \<open>std::malloc\<close> and throws \<open>std::bad_alloc\<close> on a null pointer.
  The outcome of \<open>malloc\<close> is a parameter of the model: \<open>None\<close> for the null pointer,
  \<open>Some m\<close> for a fresh block whose cell \<open>i\<close> holds the indeterminate value \<open>m i\<close>.
  \<open>out_of_bounds\<close> marks a write outside a buffer where the result type is a sum, and
  \<open>division_by_zero\<close> an integer division whose divisor is zero.
\<close>

datatype error = bad_alloc | out_of_bounds | division_by_zero

definition StaticVector :: "(nat \<Rightarrow> 'a) option \<Rightarrow> nat \<Rightarrow> error + 'a list" where
  "StaticVector malloc sz =
     (case malloc of
        None \<Rightarrow> Inl bad_alloc
      | Some m \<Rightarrow> Inr (map m [0..<sz]))"

text \<open>\<open>std::fill_n(first, count, value)\<close> on a buffer, \<open>first\<close> given as an index.\<close>

fun fill_n :: "'a list \<Rightarrow> nat \<Rightarrow> nat \<Rightarrow> 'a \<Rightarrow> 'a list option" where
  "fill_n xs first 0 v = Some xs"
| "fill_n xs first (Suc count) v =
     (case wr xs first v of
        None \<Rightarrow> None
      | Some ys \<Rightarrow> fill_n ys (Suc first) count v)"

section \<open>TwoLayerRankCombinedBitVector\<close>

subsection \<open>Template parameters and derived constants\<close>

record cfg =
  BlockWidth :: nat
  BlockHeaderWidth :: nat

definition kBlockDataWidth :: "cfg \<Rightarrow> nat" where
  "kBlockDataWidth c = BlockWidth c - BlockHeaderWidth c"

definition kHeaderDataWidth :: "cfg \<Rightarrow> nat" where
  "kHeaderDataWidth c = kWordWidth - BlockHeaderWidth c"

definition kNumWordsPerBlock :: "cfg \<Rightarrow> nat" where
  "kNumWordsPerBlock c = BlockWidth c div kWordWidth"

definition kSuperblockWidth :: "cfg \<Rightarrow> nat" where
  "kSuperblockWidth c = pow2 (BlockHeaderWidth c)"

definition kNumBlocksPerSuperblock :: "cfg \<Rightarrow> nat" where
  "kNumBlocksPerSuperblock c = kSuperblockWidth c div BlockWidth c"


definition kSuperblockDataWidth :: "cfg \<Rightarrow> nat" where
  "kSuperblockDataWidth c =
     kSuperblockWidth c - kNumBlocksPerSuperblock c * BlockHeaderWidth c"



subsection \<open>State\<close>

record bitvector =
  bv_length :: nat
  bv_num_blocks :: nat
  bv_data :: "Word list"
  bv_num_superblocks :: nat
  bv_superblock_data :: "Word list"

subsection \<open>Construction\<close>

definition TwoLayerRankCombinedBitVector ::
  "cfg \<Rightarrow> (nat \<Rightarrow> Word) option \<Rightarrow> (nat \<Rightarrow> Word) option \<Rightarrow> nat \<Rightarrow> error + bitvector" where
  "TwoLayerRankCombinedBitVector c malloc_data malloc_superblock_data len =
     (let num_blocks = div_ceil len (kBlockDataWidth c) in
      case StaticVector malloc_data
             (num_blocks * kNumWordsPerBlock c +
              kNumBlocksPerSuperblock c * kNumWordsPerBlock c) of
        Inl e \<Rightarrow> Inl e
      | Inr d \<Rightarrow>
          (let num_superblocks = div_ceil len (kSuperblockDataWidth c) in
           case StaticVector malloc_superblock_data num_superblocks of
             Inl e \<Rightarrow> Inl e
           | Inr sd \<Rightarrow>
               (case (if 0 < num_blocks
                      then fill_n d ((num_blocks - 1) * kNumWordsPerBlock c)
                             (kNumWordsPerBlock c) 0
                      else Some d) of
                  None \<Rightarrow> Inl out_of_bounds
                | Some d' \<Rightarrow>
                    Inr \<lparr> bv_length = len, bv_num_blocks = num_blocks, bv_data = d',
                          bv_num_superblocks = num_superblocks,
                          bv_superblock_data = sd \<rparr>)))"

subsection \<open>Single-bit access\<close>

definition unset :: "cfg \<Rightarrow> bitvector \<Rightarrow> nat \<Rightarrow> bitvector option" where
  "unset c bv pos =
     (let num_block = pos div kBlockDataWidth c;
          block_pos = pos mod kBlockDataWidth c + BlockHeaderWidth c;
          num_local_word = block_pos div kWordWidth;
          num_word = num_block * kNumWordsPerBlock c + num_local_word
      in do {
        w \<leftarrow> rd (bv_data bv) num_word;
        d \<leftarrow> wr (bv_data bv) num_word
               (w AND NOT (push_bit (block_pos mod kWordWidth) 1));
        Some (bv\<lparr>bv_data := d\<rparr>)
      })"

definition set1 :: "cfg \<Rightarrow> bitvector \<Rightarrow> nat \<Rightarrow> bitvector option" where
  "set1 c bv pos =
     (let num_block = pos div kBlockDataWidth c;
          block_pos = pos mod kBlockDataWidth c + BlockHeaderWidth c;
          num_local_word = block_pos div kWordWidth;
          num_word = num_block * kNumWordsPerBlock c + num_local_word
      in do {
        w \<leftarrow> rd (bv_data bv) num_word;
        d \<leftarrow> wr (bv_data bv) num_word
               (w OR push_bit (block_pos mod kWordWidth) 1);
        Some (bv\<lparr>bv_data := d\<rparr>)
      })"



subsection \<open>block_popcount\<close>

text \<open>The static overload takes a pointer to the block's first word: here the buffer and
  the index \<open>base\<close> of that word.\<close>

function block_popcount_loop :: "cfg \<Rightarrow> Word list \<Rightarrow> nat \<Rightarrow> nat \<Rightarrow> Word \<Rightarrow> Word option" where
  "block_popcount_loop c d base i acc =
     (if i < kNumWordsPerBlock c then
        (case rd d (base + i) of
           None \<Rightarrow> None
         | Some w \<Rightarrow> block_popcount_loop c d base (i + 1) (acc + of_nat (popcount w)))
      else Some acc)"
  by pat_completeness auto
termination
  by (relation "measure (\<lambda>(c, d, base, i, acc). kNumWordsPerBlock c - i)") auto

definition block_popcount_ptr :: "cfg \<Rightarrow> Word list \<Rightarrow> nat \<Rightarrow> Word option" where
  "block_popcount_ptr c d base =
     do {
       w \<leftarrow> rd d base;
       block_popcount_loop c d base 1 (of_nat (popcount (drop_bit (BlockHeaderWidth c) w)))
     }"

definition block_popcount :: "cfg \<Rightarrow> bitvector \<Rightarrow> nat \<Rightarrow> Word option" where
  "block_popcount c bv num_block =
     block_popcount_ptr c (bv_data bv) (num_block * kNumWordsPerBlock c)"

subsection \<open>update\<close>









subsection \<open>rank\<close>




section \<open>word_select1\<close>

text \<open>
  \<open>std::countr_zero\<close> and the BMI2 instruction behind \<open>_pdep_u64\<close> are not code of the
  library; they are modelled from their documentation. \<open>countr_zero x\<close> is the number of
  consecutive zero bits of \<open>x\<close> starting at bit 0 (64 for \<open>x = 0\<close>). \<open>pdep_u64 src msk\<close>
  follows the instruction's operation: the low bits of \<open>src\<close> are deposited, in order, at
  the positions of the set bits of \<open>msk\<close>; \<open>m\<close> runs over the bit positions and \<open>k\<close> counts
  the source bits used so far.
\<close>

definition countr_zero :: "Word \<Rightarrow> nat" where
  "countr_zero x = length (takeWhile (\<lambda>i. \<not> bit x i) [0..<64])"

function pdep_loop :: "Word \<Rightarrow> Word \<Rightarrow> nat \<Rightarrow> nat \<Rightarrow> Word \<Rightarrow> Word" where
  "pdep_loop src msk m k dest =
     (if m < 64 then
        (if bit msk m
         then pdep_loop src msk (m + 1) (k + 1) (if bit src k then dest OR push_bit m 1 else dest)
         else pdep_loop src msk (m + 1) k dest)
      else dest)"
  by pat_completeness auto
termination
  by (relation "measure (\<lambda>(src, msk, m, k, dest). 64 - m)") auto

declare pdep_loop.simps [simp del]

definition pdep_u64 :: "Word \<Rightarrow> Word \<Rightarrow> Word" where
  "pdep_u64 src msk = pdep_loop src msk 0 0 0"

text \<open>The three bodies of \<open>word_select1\<close>. Positions and lengths stay below 65.\<close>

definition word_select1_pdep :: "Word \<Rightarrow> nat \<Rightarrow> nat" where
  "word_select1_pdep word rank =
     (let rank_th_one = push_bit (rank - 1) (1 :: Word)
      in countr_zero (pdep_u64 rank_th_one word))"

function word_select1_binary :: "Word \<Rightarrow> nat \<Rightarrow> nat \<Rightarrow> nat \<Rightarrow> nat" where
  "word_select1_binary word rank pos len =
     (if 1 < len then
        (let half = len div 2;
             pos' = pos + (if popcount (push_bit (kWordWidth - (pos + half)) word) < rank
                           then 1 else 0) * half
         in word_select1_binary word rank pos' (len - half))
      else pos)"
  by pat_completeness auto
termination
  by (relation "measure (\<lambda>(word, rank, pos, len). len)") auto

declare word_select1_binary.simps [simp del]

partial_function (option) word_select1_linear :: "Word \<Rightarrow> nat \<Rightarrow> nat \<Rightarrow> nat option" where
  "word_select1_linear word rank pos =
     (if 0 < rank
      then word_select1_linear (drop_bit 1 word) (rank - unat (word AND 1)) (pos + 1)
      else Some (pos - 1))"

declare word_select1_linear.simps [code]

text \<open>\<open>USE_PDEP\<close> is the preprocessor switch; the other two are the template parameters.\<close>

definition word_select1 :: "bool \<Rightarrow> bool \<Rightarrow> bool \<Rightarrow> Word \<Rightarrow> nat \<Rightarrow> nat option" where
  "word_select1 USE_PDEP kUseBinarySearch kOverwriteFastPDEP word rank =
     (if \<not> kOverwriteFastPDEP \<and> USE_PDEP then Some (word_select1_pdep word rank)
      else if kUseBinarySearch then Some (word_select1_binary word rank 0 kWordWidth)
      else word_select1_linear word rank 0)"

section \<open>TwoLayerSelect\<close>

text \<open>
  The template parameters \<open>UseBinarySearch\<close> and \<open>Stride\<close>, and the build switch that
  decides which body of \<open>word_select1\<close> the queries call. The select structure keeps a
  reference to the bit vector; here the bit vector is an argument of every operation.
  \<open>__builtin_prefetch\<close> is a hint that never faults and has no result; it is left out.

  The queries subtract table entries from the rank they are looking for, and the
  constructor subtracts the number of ones it is given from the length. These are
  subtractions of \<open>std::size_t\<close> values, which wrap around when the second operand is the
  larger one: \<open>wsub\<close> is the subtraction of 64-bit words, and \<open>wadd\<close> their addition, used
  wherever an operand can be the result of a subtraction that wrapped.

  The class asserts \<open>Stride % 2 == 0\<close>, which a stride of zero passes; a division by it is
  undefined, and the model then returns \<open>division_by_zero\<close> (the constructor) or \<open>None\<close>
  (a query).
\<close>

definition wsub :: "nat \<Rightarrow> nat \<Rightarrow> nat" where
  "wsub a b = unat ((of_nat a :: Word) - of_nat b)"

definition wadd :: "nat \<Rightarrow> nat \<Rightarrow> nat" where
  "wadd a b = unat ((of_nat a :: Word) + of_nat b)"

record select_cfg =
  kUseBinarySearch :: bool
  kStride :: nat
  kUsePDEP :: bool

record two_layer_select =
  zero_samples :: "Word list"
  one_samples :: "Word list"

subsection \<open>Sampling\<close>

record sample_locals =
  cur_one :: nat
  cur_zero :: nat
  total_ones :: nat
  total_zeros :: nat
  threshold_one :: nat
  threshold_zero :: nat
  s_one_samples :: "Word list"
  s_zero_samples :: "Word list"

definition handle_block ::
  "cfg \<Rightarrow> select_cfg \<Rightarrow> sample_locals \<Rightarrow> nat \<Rightarrow> nat \<Rightarrow> nat \<Rightarrow> sample_locals option" where
  "handle_block c sc st0 num_block num_ones num_zeros =
     (let st = st0\<lparr>total_ones := total_ones st0 + num_ones,
                   total_zeros := wadd (total_zeros st0) num_zeros\<rparr>
      in do {
        st1 \<leftarrow>
          (if threshold_one st \<le> total_ones st then
             do {
               let num_superblock = (num_block * kBlockDataWidth c) div kSuperblockDataWidth c;
               os \<leftarrow> wr (s_one_samples st) (cur_one st) (of_nat num_superblock);
               Some (st\<lparr>s_one_samples := os, cur_one := cur_one st + 1,
                        threshold_one := threshold_one st + kStride sc\<rparr>)
             }
           else Some st);
        (if threshold_zero st1 \<le> total_zeros st1 then
           do {
             let num_superblock = (num_block * kBlockDataWidth c) div kSuperblockDataWidth c;
             zs \<leftarrow> wr (s_zero_samples st1) (cur_zero st1) (of_nat num_superblock);
             Some (st1\<lparr>s_zero_samples := zs, cur_zero := cur_zero st1 + 1,
                       threshold_zero := threshold_zero st1 + kStride sc\<rparr>)
           }
         else Some st1)
      })"

function select_update_loop ::
  "cfg \<Rightarrow> select_cfg \<Rightarrow> bitvector \<Rightarrow> nat \<Rightarrow> sample_locals \<Rightarrow> sample_locals option" where
  "select_update_loop c sc bv num_block st =
     (if num_block < bv_num_blocks bv - 1 then
        (case block_popcount c bv num_block of
           None \<Rightarrow> None
         | Some p \<Rightarrow>
             (let num_ones = unat p;
                  num_zeros = kBlockDataWidth c - num_ones
              in case handle_block c sc st num_block num_ones num_zeros of
                   None \<Rightarrow> None
                 | Some st' \<Rightarrow> select_update_loop c sc bv (num_block + 1) st'))
      else Some st)"
  by pat_completeness auto
termination
  by (relation "measure (\<lambda>(c, sc, bv, num_block, st). bv_num_blocks bv - 1 - num_block)") auto

declare select_update_loop.simps [simp del]

definition select_update ::
  "cfg \<Rightarrow> select_cfg \<Rightarrow> bitvector \<Rightarrow> two_layer_select \<Rightarrow> two_layer_select option" where
  "select_update c sc bv sel =
     (if bv_length bv = 0 then Some sel
      else do {
        st \<leftarrow> select_update_loop c sc bv 0
                \<lparr> cur_one = 0, cur_zero = 0, total_ones = 0, total_zeros = 0,
                  threshold_one = 0, threshold_zero = 0,
                  s_one_samples = one_samples sel, s_zero_samples = zero_samples sel \<rparr>;
        let num_last_block = bv_num_blocks bv - 1;
        let wrong_zeros = bv_num_blocks bv * kBlockDataWidth c - bv_length bv;
        p \<leftarrow> block_popcount c bv num_last_block;
        let num_ones = unat p;
        let num_zeros = wsub (kBlockDataWidth c - num_ones) wrong_zeros;
        st' \<leftarrow> handle_block c sc st num_last_block num_ones num_zeros;
        os \<leftarrow> wr (s_one_samples st') (cur_one st') (of_nat (bv_num_superblocks bv - 1));
        zs \<leftarrow> wr (s_zero_samples st') (cur_zero st') (of_nat (bv_num_superblocks bv - 1));
        Some \<lparr> zero_samples = zs, one_samples = os \<rparr>
      })"

definition TwoLayerSelect ::
  "cfg \<Rightarrow> select_cfg \<Rightarrow> (nat \<Rightarrow> Word) option \<Rightarrow> (nat \<Rightarrow> Word) option \<Rightarrow>
   bitvector \<Rightarrow> nat \<Rightarrow> error + two_layer_select" where
  "TwoLayerSelect c sc malloc_zero_samples malloc_one_samples bv num_ones =
     (if kStride sc = 0 then Inl division_by_zero
      else
        case StaticVector malloc_zero_samples
               (wsub (bv_length bv) num_ones div kStride sc + 2) of
          Inl e \<Rightarrow> Inl e
        | Inr zs \<Rightarrow>
            (case StaticVector malloc_one_samples (num_ones div kStride sc + 2) of
               Inl e \<Rightarrow> Inl e
             | Inr os \<Rightarrow>
                 (case select_update c sc bv \<lparr> zero_samples = zs, one_samples = os \<rparr> of
                    None \<Rightarrow> Inl out_of_bounds
                  | Some sel \<Rightarrow> Inr sel)))"

definition memory_space :: "two_layer_select \<Rightarrow> nat" where
  "memory_space sel =
     length (zero_samples sel) * kWordWidth + length (one_samples sel) * kWordWidth"

subsection \<open>select1\<close>

function select1_superblock_binary ::
  "Word list \<Rightarrow> nat \<Rightarrow> nat \<Rightarrow> nat \<Rightarrow> nat option" where
  "select1_superblock_binary superblock_data rank num_superblock len =
     (if 1 < len then
        (let half = len div 2; len' = len - half
         in case rd superblock_data (num_superblock + half) of
              None \<Rightarrow> None
            | Some v \<Rightarrow>
                select1_superblock_binary superblock_data rank
                  (num_superblock + (if unat v < rank then 1 else 0) * half) len')
      else Some num_superblock)"
  by pat_completeness auto
termination
  by (relation "measure (\<lambda>(superblock_data, rank, num_superblock, len). len)") auto

declare select1_superblock_binary.simps [simp del]

function select1_superblock_linear ::
  "Word list \<Rightarrow> nat \<Rightarrow> nat \<Rightarrow> nat \<Rightarrow> nat option" where
  "select1_superblock_linear superblock_data rank num_superblock num_last_superblock =
     (if num_superblock < num_last_superblock then
        (case rd superblock_data (num_superblock + 1) of
           None \<Rightarrow> None
         | Some v \<Rightarrow>
             if unat v < rank
             then select1_superblock_linear superblock_data rank (num_superblock + 1)
                    num_last_superblock
             else Some num_superblock)
      else Some num_superblock)"
  by pat_completeness auto
termination
  by (relation "measure (\<lambda>(superblock_data, rank, num_superblock, num_last_superblock).
                           num_last_superblock - num_superblock)") auto

declare select1_superblock_linear.simps [simp del]

definition block_rank1 :: "cfg \<Rightarrow> Word list \<Rightarrow> nat \<Rightarrow> nat option" where
  "block_rank1 c d offset =
     (case rd d (offset * kNumWordsPerBlock c) of
        None \<Rightarrow> None
      | Some word \<Rightarrow> Some (unat (word AND setbits (BlockHeaderWidth c) 0)))"

function select1_block_binary :: "cfg \<Rightarrow> Word list \<Rightarrow> nat \<Rightarrow> nat \<Rightarrow> nat \<Rightarrow> nat option" where
  "select1_block_binary c d rank num_block len =
     (if 1 < len then
        (let half = len div 2; len' = len - half
         in case block_rank1 c d (num_block + half) of
              None \<Rightarrow> None
            | Some r \<Rightarrow>
                select1_block_binary c d rank
                  (num_block + (if r < rank then 1 else 0) * half) len')
      else Some num_block)"
  by pat_completeness auto
termination
  by (relation "measure (\<lambda>(c, d, rank, num_block, len). len)") auto

declare select1_block_binary.simps [simp del]

function select1_block_linear :: "cfg \<Rightarrow> Word list \<Rightarrow> nat \<Rightarrow> nat \<Rightarrow> nat \<Rightarrow> nat option" where
  "select1_block_linear c d rank num_block num_last_block =
     (if num_block < num_last_block then
        (case block_rank1 c d (num_block + 1) of
           None \<Rightarrow> None
         | Some r \<Rightarrow>
             if r < rank
             then select1_block_linear c d rank (num_block + 1) num_last_block
             else Some num_block)
      else Some num_block)"
  by pat_completeness auto
termination
  by (relation "measure (\<lambda>(c, d, rank, num_block, num_last_block).
                           num_last_block - num_block)") auto

declare select1_block_linear.simps [simp del]

text \<open>The word loop: \<open>ptr\<close> is the index of the word \<open>data\<close> points to.\<close>

function select1_words ::
  "cfg \<Rightarrow> Word list \<Rightarrow> nat \<Rightarrow> nat \<Rightarrow> nat \<Rightarrow> (nat \<times> nat \<times> nat) option" where
  "select1_words c d ptr num_word rank =
     (case rd d ptr of
        None \<Rightarrow> None
      | Some word \<Rightarrow>
          (let word_rank = (if num_word = 0 then popcount (drop_bit (BlockHeaderWidth c) word)
                            else popcount word)
           in if word_rank < rank
              then select1_words c d (ptr + 1) (num_word + 1) (rank - word_rank)
              else Some (num_word, ptr, rank)))"
  by pat_completeness auto
termination
  by (relation "measure (\<lambda>(c, d, ptr, num_word, rank). length d - ptr)")
     (auto simp: rd_def split: if_splits)

declare select1_words.simps [simp del]

definition select1 ::
  "cfg \<Rightarrow> select_cfg \<Rightarrow> bitvector \<Rightarrow> two_layer_select \<Rightarrow> nat \<Rightarrow> nat option" where
  "select1 c sc bv sel rank =
     (if kStride sc = 0 then None else
      let nearest_prev_sample = wsub rank 1 div kStride sc in
      do {
        s_first \<leftarrow> rd (one_samples sel) nearest_prev_sample;
        s_last \<leftarrow> rd (one_samples sel) (nearest_prev_sample + 1);
        let num_last_superblock = unat s_last;
        num_superblock \<leftarrow>
          (if kUseBinarySearch sc
           then select1_superblock_binary (bv_superblock_data bv) rank (unat s_first)
                  (wadd (wsub num_last_superblock (unat s_first)) 1)
           else select1_superblock_linear (bv_superblock_data bv) rank (unat s_first)
                  num_last_superblock);
        sr \<leftarrow> rd (bv_superblock_data bv) num_superblock;
        let rank_sb = wsub rank (unat sr);
        let num_last_block =
              min (bv_num_blocks bv) ((num_superblock + 1) * kNumBlocksPerSuperblock c) - 1;
        num_block \<leftarrow>
          (if kUseBinarySearch sc
           then select1_block_binary c (bv_data bv) rank_sb
                  (num_superblock * kNumBlocksPerSuperblock c) (kNumBlocksPerSuperblock c)
           else select1_block_linear c (bv_data bv) rank_sb
                  (num_superblock * kNumBlocksPerSuperblock c) num_last_block);
        br \<leftarrow> block_rank1 c (bv_data bv) num_block;
        let rank_blk = wsub rank_sb br;
        (num_word, ptr, rank_wd) \<leftarrow>
          select1_words c (bv_data bv) (num_block * kNumWordsPerBlock c) 0 rank_blk;
        w \<leftarrow> rd (bv_data bv) ptr;
        let word = (if num_word = 0 then w AND NOT (setbits (BlockHeaderWidth c) 0) else w);
        bit_pos \<leftarrow> word_select1 (kUsePDEP sc) False False word rank_wd;
        Some (wsub (num_block * kBlockDataWidth c + num_word * kWordWidth + bit_pos)
                (BlockHeaderWidth c))
      })"

subsection \<open>select0\<close>

definition superblock_rank0 :: "cfg \<Rightarrow> Word list \<Rightarrow> nat \<Rightarrow> nat option" where
  "superblock_rank0 c superblock_data num_superblock =
     (case rd superblock_data num_superblock of
        None \<Rightarrow> None
      | Some v \<Rightarrow> Some (wsub (num_superblock * kSuperblockDataWidth c) (unat v)))"

function select0_superblock_binary ::
  "cfg \<Rightarrow> Word list \<Rightarrow> nat \<Rightarrow> nat \<Rightarrow> nat \<Rightarrow> nat option" where
  "select0_superblock_binary c superblock_data rank num_superblock len =
     (if 1 < len then
        (let half = len div 2; len' = len - half
         in case superblock_rank0 c superblock_data (num_superblock + half) of
              None \<Rightarrow> None
            | Some r \<Rightarrow>
                select0_superblock_binary c superblock_data rank
                  (num_superblock + (if r < rank then 1 else 0) * half) len')
      else Some num_superblock)"
  by pat_completeness auto
termination
  by (relation "measure (\<lambda>(c, superblock_data, rank, num_superblock, len). len)") auto

declare select0_superblock_binary.simps [simp del]

function select0_superblock_linear ::
  "cfg \<Rightarrow> Word list \<Rightarrow> nat \<Rightarrow> nat \<Rightarrow> nat \<Rightarrow> nat option" where
  "select0_superblock_linear c superblock_data rank num_superblock num_last_superblock =
     (if num_superblock < num_last_superblock then
        (case superblock_rank0 c superblock_data (num_superblock + 1) of
           None \<Rightarrow> None
         | Some r \<Rightarrow>
             if r < rank
             then select0_superblock_linear c superblock_data rank (num_superblock + 1)
                    num_last_superblock
             else Some num_superblock)
      else Some num_superblock)"
  by pat_completeness auto
termination
  by (relation "measure (\<lambda>(c, superblock_data, rank, num_superblock, num_last_superblock).
                           num_last_superblock - num_superblock)") auto

declare select0_superblock_linear.simps [simp del]

definition block_rank0 :: "cfg \<Rightarrow> Word list \<Rightarrow> nat \<Rightarrow> nat option" where
  "block_rank0 c d num_block =
     (case rd d (num_block * kNumWordsPerBlock c) of
        None \<Rightarrow> None
      | Some header_word \<Rightarrow>
          (let block_rank = unat (header_word AND setbits (BlockHeaderWidth c) 0)
           in Some (wsub ((num_block mod kNumBlocksPerSuperblock c) * kBlockDataWidth c)
                      block_rank)))"

function select0_block_binary :: "cfg \<Rightarrow> Word list \<Rightarrow> nat \<Rightarrow> nat \<Rightarrow> nat \<Rightarrow> nat option" where
  "select0_block_binary c d rank num_block len =
     (if 1 < len then
        (let half = len div 2; len' = len - half
         in case block_rank0 c d (num_block + half) of
              None \<Rightarrow> None
            | Some r \<Rightarrow>
                select0_block_binary c d rank
                  (num_block + (if r < rank then 1 else 0) * half) len')
      else Some num_block)"
  by pat_completeness auto
termination
  by (relation "measure (\<lambda>(c, d, rank, num_block, len). len)") auto

declare select0_block_binary.simps [simp del]

function select0_block_linear :: "cfg \<Rightarrow> Word list \<Rightarrow> nat \<Rightarrow> nat \<Rightarrow> nat \<Rightarrow> nat option" where
  "select0_block_linear c d rank num_block num_last_block =
     (if num_block < num_last_block then
        (case block_rank0 c d (num_block + 1) of
           None \<Rightarrow> None
         | Some r \<Rightarrow>
             if r < rank
             then select0_block_linear c d rank (num_block + 1) num_last_block
             else Some num_block)
      else Some num_block)"
  by pat_completeness auto
termination
  by (relation "measure (\<lambda>(c, d, rank, num_block, num_last_block).
                           num_last_block - num_block)") auto

declare select0_block_linear.simps [simp del]

function select0_words ::
  "cfg \<Rightarrow> Word list \<Rightarrow> nat \<Rightarrow> nat \<Rightarrow> nat \<Rightarrow> (nat \<times> nat \<times> nat) option" where
  "select0_words c d ptr num_word rank =
     (case rd d ptr of
        None \<Rightarrow> None
      | Some word \<Rightarrow>
          (let word_rank = (if num_word = 0
                            then popcount (NOT (word OR setbits (BlockHeaderWidth c) 0))
                            else popcount (NOT word))
           in if word_rank < rank
              then select0_words c d (ptr + 1) (num_word + 1) (rank - word_rank)
              else Some (num_word, ptr, rank)))"
  by pat_completeness auto
termination
  by (relation "measure (\<lambda>(c, d, ptr, num_word, rank). length d - ptr)")
     (auto simp: rd_def split: if_splits)

declare select0_words.simps [simp del]

definition select0 ::
  "cfg \<Rightarrow> select_cfg \<Rightarrow> bitvector \<Rightarrow> two_layer_select \<Rightarrow> nat \<Rightarrow> nat option" where
  "select0 c sc bv sel rank =
     (if kStride sc = 0 then None else
      let nearest_prev_sample = wsub rank 1 div kStride sc in
      do {
        s_first \<leftarrow> rd (zero_samples sel) nearest_prev_sample;
        s_last \<leftarrow> rd (zero_samples sel) (nearest_prev_sample + 1);
        let num_last_superblock = unat s_last;
        num_superblock \<leftarrow>
          (if kUseBinarySearch sc
           then select0_superblock_binary c (bv_superblock_data bv) rank (unat s_first)
                  (wadd (wsub num_last_superblock (unat s_first)) 1)
           else select0_superblock_linear c (bv_superblock_data bv) rank (unat s_first)
                  num_last_superblock);
        sr \<leftarrow> superblock_rank0 c (bv_superblock_data bv) num_superblock;
        let rank_sb = wsub rank sr;
        let num_last_block =
              min (bv_num_blocks bv) ((num_superblock + 1) * kNumBlocksPerSuperblock c) - 1;
        num_block \<leftarrow>
          (if kUseBinarySearch sc
           then select0_block_binary c (bv_data bv) rank_sb
                  (num_superblock * kNumBlocksPerSuperblock c) (kNumBlocksPerSuperblock c)
           else select0_block_linear c (bv_data bv) rank_sb
                  (num_superblock * kNumBlocksPerSuperblock c) num_last_block);
        br \<leftarrow> block_rank0 c (bv_data bv) num_block;
        let rank_blk = wsub rank_sb br;
        (num_word, ptr, rank_wd) \<leftarrow>
          select0_words c (bv_data bv) (num_block * kNumWordsPerBlock c) 0 rank_blk;
        w \<leftarrow> rd (bv_data bv) ptr;
        let word = (if num_word = 0 then w OR setbits (BlockHeaderWidth c) 0 else w);
        bit_pos \<leftarrow> word_select1 (kUsePDEP sc) False False (NOT word) rank_wd;
        Some (wsub (num_block * kBlockDataWidth c + num_word * kWordWidth + bit_pos)
                (BlockHeaderWidth c))
      })"

section \<open>Arithmetic of the template constants\<close>


section \<open>Counting set positions\<close>

definition count_in :: "(nat \<Rightarrow> bool) \<Rightarrow> nat \<Rightarrow> nat \<Rightarrow> nat" where
  "count_in f a b = length (filter f [a..<b])"

lemma count_in_empty [simp]: "b \<le> a \<Longrightarrow> count_in f a b = 0"
  by (simp add: count_in_def)

lemma count_in_split: "a \<le> b \<Longrightarrow> b \<le> c \<Longrightarrow> count_in f a c = count_in f a b + count_in f b c"
proof -
  assume "a \<le> b" "b \<le> c"
  then have "[a..<c] = [a..<b] @ [b..<c]"
    by (metis le_Suc_ex upt_add_eq_append)
  then show ?thesis by (simp add: count_in_def)
qed

lemma count_in_Suc: "a \<le> b \<Longrightarrow> count_in f a (Suc b) = count_in f a b + (if f b then 1 else 0)"
  by (simp add: count_in_def)

lemma count_in_cong: "(\<And>q. a \<le> q \<Longrightarrow> q < b \<Longrightarrow> f q = g q) \<Longrightarrow> count_in f a b = count_in g a b"
  unfolding count_in_def by (rule arg_cong [where f = length], rule filter_cong) auto

lemma count_in_shift: "count_in (\<lambda>q. f (q + k)) a b = count_in f (a + k) (b + k)"
proof -
  have "[a + k..<b + k] = map (\<lambda>q. q + k) [a..<b]"
    by (induction b) (auto simp: le_Suc_eq)
  then show ?thesis by (simp add: count_in_def filter_map comp_def)
qed

lemma count_in_le: "count_in f a b \<le> b - a"
  unfolding count_in_def by (rule order_trans [OF length_filter_le]) simp

lemma count_in_none: "(\<And>q. a \<le> q \<Longrightarrow> q < b \<Longrightarrow> \<not> f q) \<Longrightarrow> count_in f a b = 0"
  by (auto simp: count_in_def filter_empty_conv)

lemma count_in_card: "count_in f a b = card {q. a \<le> q \<and> q < b \<and> f q}"
proof -
  have "count_in f a b = card (set (filter f [a..<b]))"
    unfolding count_in_def by (rule distinct_card [symmetric]) simp
  also have "set (filter f [a..<b]) = {q. a \<le> q \<and> q < b \<and> f q}" by auto
  finally show ?thesis .
qed

lemma popcount_count: "popcount w = count_in (bit w) 0 64"
  by (simp add: popcount_def count_in_def)



lemma popcount_push_bit: "m \<le> 64 \<Longrightarrow> popcount (push_bit (64 - m) w) = count_in (bit w) 0 m"
proof -
  assume m: "m \<le> 64"
  have "popcount (push_bit (64 - m) w) = count_in (bit (push_bit (64 - m) w)) 0 64"
    by (simp add: popcount_count)
  also have "\<dots> = count_in (bit (push_bit (64 - m) w)) 0 (64 - m) + count_in (bit (push_bit (64 - m) w)) (64 - m) 64"
    by (intro count_in_split) auto
  also have "count_in (bit (push_bit (64 - m) w)) 0 (64 - m) = 0"
    by (rule count_in_none) (simp add: bit_push_bit_iff)
  also have "count_in (bit (push_bit (64 - m) w)) (64 - m) 64 = count_in (\<lambda>q. bit w (q - (64 - m))) (64 - m) 64"
    by (rule count_in_cong) (simp add: bit_push_bit_iff)
  also have "\<dots> = count_in (\<lambda>q. bit w (q + (64 - m) - (64 - m))) 0 m"
    using m count_in_shift [of "\<lambda>q. bit w (q - (64 - m))" "64 - m" 0 m] by simp
  finally show ?thesis by simp
qed


section \<open>The payload view of the data buffer\<close>

definition block_bit :: "Word list \<Rightarrow> nat \<Rightarrow> nat \<Rightarrow> bool" where
  "block_bit d base q = bit (d ! (base + q div 64)) (q mod 64)"

definition payload :: "cfg \<Rightarrow> Word list \<Rightarrow> nat \<Rightarrow> bool" where
  "payload c d p =
     block_bit d ((p div kBlockDataWidth c) * kNumWordsPerBlock c)
       (p mod kBlockDataWidth c + BlockHeaderWidth c)"



lemma rd_None [simp]: "length xs \<le> i \<Longrightarrow> rd xs i = None"
  by (simp add: rd_def)

lemma wr_Some [simp]: "i < length xs \<Longrightarrow> wr xs i v = Some (xs[i := v])"
  by (simp add: wr_def)







section \<open>Header bits\<close>

lemma bit_ones_drop: "n + start \<le> 64 \<Longrightarrow> n \<noteq> 0 \<Longrightarrow> bit (drop_bit (64 - n) (- 1 :: Word)) j \<longleftrightarrow> j < n"
  apply (simp add: bit_drop_bit_eq)
  apply (simp add: Word.bit_mask_iff)
  done

lemma bit_setbits:
  assumes "n + start \<le> 64"
  shows "bit (setbits n start) q \<longleftrightarrow> start \<le> q \<and> q < start + n"
proof (cases "n = 0")
  case True
  then show ?thesis by (simp add: setbits_def)
next
  case False
  have *: "bit (drop_bit (64 - n) (- 1 :: Word)) j \<longleftrightarrow> j < n" for j
    using assms False by (rule bit_ones_drop)
  have "bit (setbits n start) q \<longleftrightarrow> start \<le> q \<and> q < 64 \<and> bit (drop_bit (64 - n) (- 1 :: Word)) (q - start)"
    using False by (simp only: setbits_def kWordWidth_def if_False bit_push_bit_iff possible_bit_word) simp
  then show ?thesis
    using assms by (simp only: *) arith
qed

lemma setbits_low: "n \<le> 64 \<Longrightarrow> w AND setbits n 0 = take_bit n w"
proof (rule bit_eqI)
  fix q
  assume "n \<le> 64"
  then show "bit (w AND setbits n 0) q = bit (take_bit n w) q"
    by (simp add: bit_and_iff bit_setbits bit_take_bit_iff conj_commute)
qed








section \<open>The state of update() after a number of blocks\<close>


definition sb_start :: "cfg \<Rightarrow> nat \<Rightarrow> nat" where
  "sb_start c b = (b div kNumBlocksPerSuperblock c) * kSuperblockDataWidth c"

definition header_value :: "cfg \<Rightarrow> Word list \<Rightarrow> nat \<Rightarrow> nat \<Rightarrow> nat" where
  "header_value c d nb k =
     count_in (payload c d) (sb_start c k) (min k nb * kBlockDataWidth c)"

definition data_after :: "cfg \<Rightarrow> bitvector \<Rightarrow> nat \<Rightarrow> Word list" where
  "data_after c bv b =
     map (\<lambda>i. if i mod kNumWordsPerBlock c = 0 \<and> i div kNumWordsPerBlock c < b
               then (bv_data bv ! i AND setbits (kHeaderDataWidth c) (BlockHeaderWidth c)) OR
                    of_nat (header_value c (bv_data bv) (bv_num_blocks bv) (i div kNumWordsPerBlock c))
               else bv_data bv ! i)
       [0..<length (bv_data bv)]"

definition sb_after :: "cfg \<Rightarrow> bitvector \<Rightarrow> nat \<Rightarrow> Word list" where
  "sb_after c bv n =
     map (\<lambda>s. if s < n
               then of_nat (count_in (payload c (bv_data bv)) 0 (s * kSuperblockDataWidth c))
               else bv_superblock_data bv ! s)
       [0..<length (bv_superblock_data bv)]"







lemma data_after_length [simp]: "length (data_after c bv b) = length (bv_data bv)"
  by (simp add: data_after_def)

lemma sb_after_length [simp]: "length (sb_after c bv n) = length (bv_superblock_data bv)"
  by (simp add: sb_after_def)








definition data_pad :: "cfg \<Rightarrow> bitvector \<Rightarrow> nat \<Rightarrow> Word list" where
  "data_pad c bv j =
     map (\<lambda>i. if i mod kNumWordsPerBlock c = 0 \<and> bv_num_blocks bv \<le> i div kNumWordsPerBlock c \<and>
                  i div kNumWordsPerBlock c < j
               then of_nat (header_value c (bv_data bv) (bv_num_blocks bv) (i div kNumWordsPerBlock c))
               else data_after c bv (bv_num_blocks bv) ! i)
       [0..<length (bv_data bv)]"



lemma data_pad_length [simp]: "length (data_pad c bv j) = length (bv_data bv)"
  by (simp add: data_pad_def)











section \<open>Properties of the finalized vector\<close>














lemma unat_of_nat_small: "n < 2 ^ 64 \<Longrightarrow> unat (of_nat n :: Word) = n"
  by (simp add: unat_of_nat)











section \<open>A small instantiation\<close>

definition cfg_small :: cfg where
  "cfg_small = \<lparr>BlockWidth = 128, BlockHeaderWidth = 8\<rparr>"


definition ex1_final :: bitvector where
  "ex1_final = \<lparr>bv_length = 1, bv_num_blocks = 1, bv_data = [256, 0, 1, 7, 0, 7],
           bv_num_superblocks = 1, bv_superblock_data = [0]\<rparr>"






























section \<open>Rank queries\<close>












section \<open>Construction\<close>





lemma constructor_bad_alloc:
  "TwoLayerRankCombinedBitVector c None m2 len = Inl bad_alloc"
  "TwoLayerRankCombinedBitVector c (Some m1) None len = Inl bad_alloc"
  by (simp_all add: TwoLayerRankCombinedBitVector_def StaticVector_def Let_def)




definition ones_memory :: "nat \<Rightarrow> Word" where
  "ones_memory i = - 1"





section \<open>Sizes of the sample buffers\<close>

text \<open>Inside the range of \<open>std::size_t\<close> the wrapping operations are the plain ones.\<close>

lemma wsub_eq:
  assumes "b \<le> a" and "a < 2 ^ 64"
  shows "wsub a b = a - b"
proof -
  have "(of_nat a :: Word) - of_nat b = of_nat (a - b)" using assms(1) by simp
  moreover have "a - b < 2 ^ 64" using assms(2) by simp
  ultimately show ?thesis by (simp add: wsub_def unat_of_nat_small)
qed

lemma wadd_eq:
  assumes "a + b < 2 ^ 64"
  shows "wadd a b = a + b"
proof -
  have "(of_nat a :: Word) + of_nat b = of_nat (a + b)" by simp
  then show ?thesis using assms by (simp only: wadd_def unat_of_nat_small)
qed

lemma wr_length: "wr xs i v = Some ys \<Longrightarrow> length ys = length xs"
  by (auto simp: wr_def split: if_splits)

lemma handle_block_lengths:
  assumes "handle_block c sc st b n1 n0 = Some st'"
  shows "length (s_one_samples st') = length (s_one_samples st) \<and>
         length (s_zero_samples st') = length (s_zero_samples st)"
  using assms
  by (auto simp: handle_block_def Let_def bind_eq_Some_conv dest!: wr_length split: if_splits)

lemma select_update_loop_lengths:
  "select_update_loop c sc bv b st = Some st' \<Longrightarrow>
   length (s_one_samples st') = length (s_one_samples st) \<and>
   length (s_zero_samples st') = length (s_zero_samples st)"
proof (induction c sc bv b st rule: select_update_loop.induct)
  case (1 c sc bv num_block st)
  show ?case
  proof (cases "num_block < bv_num_blocks bv - 1")
    case True
    from "1.prems" True obtain p st1 where
      p: "block_popcount c bv num_block = Some p" and
      h: "handle_block c sc st num_block (unat p) (kBlockDataWidth c - unat p) = Some st1" and
      r: "select_update_loop c sc bv (num_block + 1) st1 = Some st'"
      by (subst (asm) select_update_loop.simps) (auto simp: Let_def split: option.splits)
    from "1.IH" [OF True p refl refl h r] handle_block_lengths [OF h]
    show ?thesis by simp
  next
    case False
    with "1.prems" show ?thesis by (subst (asm) select_update_loop.simps) simp
  qed
qed

lemma select_update_lengths:
  assumes "select_update c sc bv sel = Some sel'"
  shows "length (one_samples sel') = length (one_samples sel) \<and>
         length (zero_samples sel') = length (zero_samples sel)"
proof (cases "bv_length bv = 0")
  case True
  with assms show ?thesis by (simp add: select_update_def)
next
  case False
  let ?init = "\<lparr> cur_one = 0, cur_zero = 0, total_ones = 0, total_zeros = 0,
            threshold_one = 0, threshold_zero = 0,
            s_one_samples = one_samples sel, s_zero_samples = zero_samples sel \<rparr>"
  from assms False have "\<exists>st (p :: Word) st' os zs.
      select_update_loop c sc bv 0 ?init = Some st \<and>
      handle_block c sc st (bv_num_blocks bv - 1) (unat p)
          (wsub (kBlockDataWidth c - unat p)
             (bv_num_blocks bv * kBlockDataWidth c - bv_length bv)) = Some st' \<and>
      wr (s_one_samples st') (cur_one st') (of_nat (bv_num_superblocks bv - 1)) = Some os \<and>
      wr (s_zero_samples st') (cur_zero st') (of_nat (bv_num_superblocks bv - 1)) = Some zs \<and>
      sel' = \<lparr> zero_samples = zs, one_samples = os \<rparr>"
    unfolding select_update_def Let_def by (auto simp: bind_eq_Some_conv) blast
  then obtain st and p :: Word and st' os zs where
    l: "select_update_loop c sc bv 0 ?init = Some st" and
    h: "handle_block c sc st (bv_num_blocks bv - 1) (unat p)
          (wsub (kBlockDataWidth c - unat p)
             (bv_num_blocks bv * kBlockDataWidth c - bv_length bv)) = Some st'" and
    o: "wr (s_one_samples st') (cur_one st') (of_nat (bv_num_superblocks bv - 1)) = Some os" and
    z: "wr (s_zero_samples st') (cur_zero st') (of_nat (bv_num_superblocks bv - 1)) = Some zs" and
    e: "sel' = \<lparr> zero_samples = zs, one_samples = os \<rparr>"
    by blast
  from select_update_loop_lengths [OF l] handle_block_lengths [OF h] wr_length [OF o] wr_length [OF z]
  show ?thesis by (simp add: e)
qed

definition sc_small :: select_cfg where
  "sc_small = \<lparr>kUseBinarySearch = True, kStride = 120, kUsePDEP = False\<rparr>"

definition ex1_select :: two_layer_select where
  "ex1_select = \<lparr>zero_samples = [0, 0], one_samples = [0, 0]\<rparr>"

lemma select_ex1:
  "TwoLayerSelect cfg_small sc_small (Some ones_memory) (Some ones_memory) ex1_final 1 =
     Inr ex1_select"
  by code_simp

section \<open>Selecting a bit inside a word\<close>

text \<open>\<open>kth_one w k p\<close>: \<open>p\<close> is the 0-indexed position of the \<open>k\<close>-th set bit of \<open>w\<close>.\<close>

definition kth_one :: "Word \<Rightarrow> nat \<Rightarrow> nat \<Rightarrow> bool" where
  "kth_one w k p \<longleftrightarrow> p < 64 \<and> bit w p \<and> count_in (bit w) 0 p + 1 = k"

lemma count_in_mono: "b \<le> b' \<Longrightarrow> count_in f a b \<le> count_in f a b'"
proof (cases "a \<le> b")
  case True
  assume "b \<le> b'"
  then show ?thesis using count_in_split [OF True, of b' f] by simp
next
  case False
  then show ?thesis by simp
qed

lemma kth_one_unique:
  assumes "kth_one w k p" "kth_one w k p'"
  shows "p = p'"
proof -
  have *: False if a: "kth_one w k x" and b: "kth_one w k y" and lt: "x < y" for x y
  proof -
    have "count_in (bit w) 0 (Suc x) \<le> count_in (bit w) 0 y"
      using lt by (intro count_in_mono) simp
    moreover have "count_in (bit w) 0 (Suc x) = k"
      using a by (simp add: kth_one_def count_in_Suc)
    moreover have "count_in (bit w) 0 y + 1 = k" using b by (simp add: kth_one_def)
    ultimately show False by simp
  qed
  show ?thesis
    using assms *[of p p'] *[of p' p] by (cases p p' rule: linorder_cases) auto
qed

lemma kth_oneI:
  assumes "p < 64" "count_in (bit w) 0 p < k" "k \<le> count_in (bit w) 0 (Suc p)"
  shows "kth_one w k p"
  using assms by (auto simp: kth_one_def count_in_Suc split: if_splits)

subsection \<open>The branchless binary search\<close>

lemma word_select1_binary_inv:
  assumes "count_in (bit w) 0 pos < k" "k \<le> count_in (bit w) 0 (pos + len)"
    and "1 \<le> len" "pos + len \<le> 64"
  shows "kth_one w k (word_select1_binary w k pos len)"
  using assms
proof (induction len arbitrary: pos rule: less_induct)
  case (less len)
  show ?case
  proof (cases "1 < len")
    case False
    with less.prems have "len = 1" by simp
    then show ?thesis
      using less.prems by (subst word_select1_binary.simps) (auto intro!: kth_oneI)
  next
    case True
    define half where "half = len div 2"
    define t where "t = (popcount (push_bit (kWordWidth - (pos + half)) w) < k)"
    define pos' where "pos' = pos + (if t then 1 else 0) * half"
    have h: "1 \<le> half" "half < len" using True by (simp_all add: half_def)
    have le: "pos + half \<le> 64" using h less.prems(4) by simp
    have pc: "popcount (push_bit (kWordWidth - (pos + half)) w) = count_in (bit w) 0 (pos + half)"
      using le by (simp add: kWordWidth_def popcount_push_bit)
    have unf: "word_select1_binary w k pos len = word_select1_binary w k pos' (len - half)"
      using True by (subst word_select1_binary.simps) (simp add: Let_def half_def pos'_def t_def)
    have "kth_one w k (word_select1_binary w k pos' (len - half))"
    proof (rule less.IH)
      show "len - half < len" using h by simp
      show "count_in (bit w) 0 pos' < k"
        using less.prems(1) by (simp add: pos'_def t_def pc)
      show "k \<le> count_in (bit w) 0 (pos' + (len - half))"
      proof (cases t)
        case True
        then show ?thesis using less.prems(2) h by (simp add: pos'_def)
      next
        case False
        then have "k \<le> count_in (bit w) 0 (pos + half)" by (simp add: t_def pc)
        also have "\<dots> \<le> count_in (bit w) 0 (pos + (len - half))"
          using h by (intro count_in_mono) (simp add: half_def)
        finally show ?thesis using False by (simp add: pos'_def)
      qed
      show "1 \<le> len - half" using h by simp
      show "pos' + (len - half) \<le> 64" using h less.prems(4) by (cases t) (simp_all add: pos'_def)
    qed
    then show ?thesis by (simp only: unf)
  qed
qed

lemma word_select1_binary_correct:
  assumes "1 \<le> k" "k \<le> popcount w"
  shows "kth_one w k (word_select1_binary w k 0 kWordWidth)"
  using assms by (intro word_select1_binary_inv) (simp_all add: kWordWidth_def popcount_count)

subsection \<open>The linear scan\<close>

lemma unat_and_1: "unat (x AND 1 :: Word) = (if bit x 0 then 1 else 0)"
proof (cases "odd x")
  case True
  then have "x AND 1 = 1" by (simp add: and_one_eq mod_2_eq_odd)
  then show ?thesis using True by (simp add: bit_0)
next
  case False
  then have "x AND 1 = 0" by (simp add: and_one_eq mod_2_eq_odd)
  then show ?thesis using False by (simp add: bit_0)
qed

lemma word_select1_linear_inv:
  assumes "kth_one w k p" "i \<le> p + 1"
  shows "word_select1_linear (drop_bit i w) (k - count_in (bit w) 0 i) i = Some p"
  using assms(2)
proof (induction "p + 1 - i" arbitrary: i)
  case 0
  then have i: "i = Suc p" by simp
  have "count_in (bit w) 0 (Suc p) = k"
    using assms(1) by (simp add: kth_one_def count_in_Suc)
  then show ?case by (subst word_select1_linear.simps) (simp add: i)
next
  case (Suc n)
  then have ip: "i \<le> p" by simp
  have "count_in (bit w) 0 i \<le> count_in (bit w) 0 p" using ip by (rule count_in_mono)
  then have lt: "count_in (bit w) 0 i < k" using assms(1) by (simp add: kth_one_def)
  have step: "k - (count_in (bit w) 0 i + unat (drop_bit i w AND 1)) = k - count_in (bit w) 0 (Suc i)"
    by (simp add: unat_and_1 bit_drop_bit_eq count_in_Suc)
  have "word_select1_linear (drop_bit (Suc i) w) (k - count_in (bit w) 0 (Suc i)) (Suc i) = Some p"
    using Suc.hyps(2) ip by (intro Suc.hyps(1)) auto
  then show ?case
    using lt by (subst word_select1_linear.simps) (simp add: step drop_bit_drop_bit del: drop_bit_Suc)
qed

lemma word_select1_linear_correct:
  assumes "kth_one w k p"
  shows "word_select1_linear w k 0 = Some p"
  using word_select1_linear_inv [OF assms, of 0] by simp

subsection \<open>Parallel bit deposit\<close>

lemma count_in_first:
  "a < b \<Longrightarrow> count_in f a b = (if f a then 1 else 0) + count_in f (Suc a) b"
  by (simp add: count_in_def upt_conv_Cons)

lemma bit_single: "bit (2 ^ m :: Word) j \<longleftrightarrow> j = m \<and> m < 64"
  by (auto simp: bit_exp_iff)

lemma pdep_loop_bit:
  assumes "m \<le> 64" "\<And>j. m \<le> j \<Longrightarrow> \<not> bit dest j"
  shows "bit (pdep_loop src msk m k dest) j \<longleftrightarrow>
         (if j < m then bit dest j
          else j < 64 \<and> bit msk j \<and> bit src (k + count_in (bit msk) m j))"
  using assms
proof (induction "64 - m" arbitrary: m k dest)
  case 0
  then have m: "m = 64" by simp
  have "pdep_loop src msk m k dest = dest" by (subst pdep_loop.simps) (simp add: m)
  then show ?case using "0.prems"(2) [of j] by (auto simp: m)
next
  case (Suc n)
  then have lt: "m < 64" by simp
  show ?case
  proof (cases "bit msk m")
    case True
    define dest' where "dest' = (if bit src k then dest OR push_bit m 1 else dest)"
    have unf: "pdep_loop src msk m k dest = pdep_loop src msk (Suc m) (Suc k) dest'"
      using lt True by (subst pdep_loop.simps) (simp add: dest'_def)
    have d': "bit dest' i \<longleftrightarrow> (if i = m then bit src k else bit dest i)" for i
      using Suc.prems(2) [of m] lt by (auto simp: dest'_def bit_or_iff bit_single)
    have IH: "bit (pdep_loop src msk (Suc m) (Suc k) dest') j \<longleftrightarrow>
         (if j < Suc m then bit dest' j
          else j < 64 \<and> bit msk j \<and> bit src (Suc k + count_in (bit msk) (Suc m) j))"
    proof (rule Suc.hyps(1))
      show "n = 64 - Suc m" using Suc.hyps(2) by simp
      show "Suc m \<le> 64" using lt by simp
      show "\<not> bit dest' i" if "Suc m \<le> i" for i
        using that Suc.prems(2) [of i] by (simp add: d')
    qed
    show ?thesis
    proof (cases j m rule: linorder_cases)
      case less
      then show ?thesis by (simp add: unf IH d')
    next
      case equal
      then show ?thesis using lt True IH by (simp add: unf d')
    next
      case greater
      then show ?thesis using True by (simp add: unf IH count_in_first)
    qed
  next
    case False
    have unf: "pdep_loop src msk m k dest = pdep_loop src msk (Suc m) k dest"
      using lt False by (subst pdep_loop.simps) simp
    have IH: "bit (pdep_loop src msk (Suc m) k dest) j \<longleftrightarrow>
         (if j < Suc m then bit dest j
          else j < 64 \<and> bit msk j \<and> bit src (k + count_in (bit msk) (Suc m) j))"
    proof (rule Suc.hyps(1))
      show "n = 64 - Suc m" using Suc.hyps(2) by simp
      show "Suc m \<le> 64" using lt by simp
      show "\<not> bit dest i" if "Suc m \<le> i" for i
        using that Suc.prems(2) [of i] by simp
    qed
    show ?thesis
    proof (cases j m rule: linorder_cases)
      case less
      then show ?thesis by (simp add: unf IH)
    next
      case equal
      then show ?thesis using False Suc.prems(2) [of m] IH by (simp add: unf)
    next
      case greater
      then show ?thesis using False by (simp add: unf IH count_in_first)
    qed
  qed
qed

lemma bit_pdep_u64:
  "bit (pdep_u64 src msk) j \<longleftrightarrow> j < 64 \<and> bit msk j \<and> bit src (count_in (bit msk) 0 j)"
  using pdep_loop_bit [of 0 0 src msk 0 j] by (simp add: pdep_u64_def)

lemma countr_zero_eq:
  assumes "p < 64" "bit x p" "\<And>i. i < p \<Longrightarrow> \<not> bit x i"
  shows "countr_zero x = p"
proof -
  have "[0..<64] = [0..<p] @ p # [Suc p..<64]"
    using assms(1) by (metis less_imp_le_nat upt_add_eq_append upt_conv_Cons le_add_diff_inverse zero_le)
  moreover have "takeWhile (\<lambda>i. \<not> bit x i) ([0..<p] @ p # [Suc p..<64]) = [0..<p]"
    using assms(2,3) by (subst takeWhile_append2) auto
  ultimately show ?thesis by (simp add: countr_zero_def)
qed

lemma word_select1_pdep_correct:
  assumes "kth_one w k p"
  shows "word_select1_pdep w k = p"
proof -
  have k: "1 \<le> k" "k - 1 < 64" "count_in (bit w) 0 p = k - 1" "p < 64" "bit w p"
    using assms count_in_le [of "bit w" 0 p] by (auto simp: kth_one_def)
  have b: "bit (pdep_u64 (push_bit (k - 1) 1) w) j \<longleftrightarrow> kth_one w k j" for j
    using k(1,2) by (auto simp: bit_pdep_u64 bit_single kth_one_def)
  have "countr_zero (pdep_u64 (push_bit (k - 1) 1) w) = p"
  proof (rule countr_zero_eq [OF k(4)])
    show "bit (pdep_u64 (push_bit (k - 1) 1) w) p" using assms by (simp only: b)
    show "\<not> bit (pdep_u64 (push_bit (k - 1) 1) w) i" if "i < p" for i
      using that kth_one_unique [OF assms, of i] by (simp only: b) auto
  qed
  then show ?thesis by (simp only: word_select1_pdep_def Let_def)
qed

text \<open>
  C9. For every 64-bit word \<open>w\<close> and every \<open>k\<close> with \<open>1 \<le> k \<le> popcount w\<close>, the three
  bodies of \<open>word_select1\<close> (parallel bit deposit, branchless binary search, linear scan)
  return the same value, the 0-indexed position \<open>p\<close> of the \<open>k\<close>-th set bit of \<open>w\<close>: bit
  \<open>p\<close> is set and exactly \<open>k - 1\<close> bits below \<open>p\<close> are set. So \<open>word_select1\<close> returns \<open>p\<close> for
  every choice of the build switch and the template parameters.
\<close>

theorem word_select1_agreement:
  assumes "1 \<le> k" and "k \<le> popcount w"
  shows "\<exists>p. p < 64 \<and> bit w p \<and> count_in (bit w) 0 p + 1 = k \<and>
           word_select1_pdep w k = p \<and>
           word_select1_binary w k 0 kWordWidth = p \<and>
           word_select1_linear w k 0 = Some p \<and>
           word_select1 True False False w k = Some p \<and>
           word_select1 False True False w k = Some p \<and>
           word_select1 False False False w k = Some p \<and>
           word_select1 True True True w k = Some p \<and>
           word_select1 True False True w k = Some p"
proof -
  let ?p = "word_select1_binary w k 0 kWordWidth"
  have kp: "kth_one w k ?p" by (rule word_select1_binary_correct [OF assms])
  have "word_select1_pdep w k = ?p" by (rule word_select1_pdep_correct [OF kp])
  moreover have "word_select1_linear w k 0 = Some ?p" by (rule word_select1_linear_correct [OF kp])
  ultimately show ?thesis
    using kp by (auto simp: word_select1_def kth_one_def)
qed

theorem word_select1_agreement_witness:
  "1 \<le> (3 :: nat) \<and> 3 \<le> popcount 12345 \<and>
   word_select1_pdep 12345 3 = 4 \<and> word_select1_binary 12345 3 0 kWordWidth = 4 \<and>
   word_select1_linear 12345 3 0 = Some 4 \<and> bit (12345 :: Word) 4 \<and>
   count_in (bit (12345 :: Word)) 0 4 + 1 = 3"
proof -
  have pc: "3 \<le> popcount 12345" by code_simp
  from word_select1_agreement [of 3 12345] pc
  obtain p where p: "p < 64" "bit (12345 :: Word) p" "count_in (bit (12345 :: Word)) 0 p + 1 = 3"
    "word_select1_pdep 12345 3 = p" "word_select1_binary 12345 3 0 kWordWidth = p"
    "word_select1_linear 12345 3 0 = Some p"
    by auto
  have "word_select1_binary 12345 3 0 kWordWidth = 4" by code_simp
  with p(5) have "p = 4" by simp
  with p pc show ?thesis by simp
qed

end
